theory Spec2Isabelle
  imports Complex_Main
begin

section \<open>Python exceptions\<close>

text \<open>
  Every \<^verbatim>\<open>raise\<close> of the source is a value.  The messages of the \<^verbatim>\<open>ValueError\<close>s of
  \<^verbatim>\<open>split_address\<close> are kept structured: the constructor names the message text, its
  argument is the interpolated value.
\<close>

datatype value_error_msg =
    Invalid_address_format string  \<comment> \<open>\<^verbatim>\<open>Invalid address format: {address!r}. Expected: 'host:port'.\<close>\<close>
  | Host_part_empty                \<comment> \<open>\<^verbatim>\<open>Host part must not be empty.\<close>\<close>
  | Port_part_empty                \<comment> \<open>\<^verbatim>\<open>Port part must not be empty.\<close>\<close>
  | Invalid_literal string         \<comment> \<open>raised by \<^verbatim>\<open>int(port_str)\<close> itself\<close>
  | Port_out_of_range int          \<comment> \<open>\<^verbatim>\<open>Port must be between 0 and 65535: {port}\<close>\<close>
  | Invalid_port string            \<comment> \<open>\<^verbatim>\<open>Invalid port: {port_str!r}. Must be an integer.\<close>\<close>

datatype py_exn =
    ValueError value_error_msg
  | JSONDecodeError
  | TypeError
  | ConnectionClosed
  | CancelledError
  | ImportError
  | SystemExit
  | KeyboardInterrupt
  | OtherException string
  | OtherBaseException string

text \<open>
  \<^verbatim>\<open>isinstance(e, Exception)\<close>.  Since Python 3.8 \<^verbatim>\<open>asyncio.CancelledError\<close> derives from
  \<^verbatim>\<open>BaseException\<close> only (the sources use the \<^verbatim>\<open>X | None\<close> annotation syntax of 3.10), as
  \<^verbatim>\<open>SystemExit\<close> and \<^verbatim>\<open>KeyboardInterrupt\<close> do.
\<close>

fun is_Exception :: "py_exn \<Rightarrow> bool" where
  "is_Exception CancelledError = False"
| "is_Exception SystemExit = False"
| "is_Exception KeyboardInterrupt = False"
| "is_Exception (OtherBaseException _) = False"
| "is_Exception _ = True"

fun is_ValueError :: "py_exn \<Rightarrow> bool" where
  "is_ValueError (ValueError _) = True"
| "is_ValueError JSONDecodeError = True"
| "is_ValueError _ = False"

section \<open>\<^verbatim>\<open>utils.split_address\<close>\<close>

subsection \<open>Strings and the builtin \<^verbatim>\<open>int\<close>\<close>

text \<open>
  A Python string is the list of its characters, or of the bytes of its UTF-8
  encoding: a colon is found at the same places either way, and a part is empty in the one
  reading when it is in the other.  The builtin \<^verbatim>\<open>int\<close> is not code of \<^verbatim>\<open>utils.py\<close>; the
  functions below take it as the parameter \<open>int_of\<close>, where \<open>int_of s = None\<close> stands for the
  \<^verbatim>\<open>ValueError\<close> that \<^verbatim>\<open>int(s)\<close> raises when \<open>s\<close> is no integer literal (on a string it raises
  nothing else).
\<close>

subsection \<open>\<^verbatim>\<open>str.rsplit(":", 1)\<close> on a string that holds a colon\<close>

definition rsplit_colon :: "string \<Rightarrow> string \<times> string" where
  "rsplit_colon address =
     (rev (tl (dropWhile (\<lambda>c. c \<noteq> CHR '':'') (rev address))),
      rev (takeWhile (\<lambda>c. c \<noteq> CHR '':'') (rev address)))"

subsection \<open>The function\<close>

definition parse_port :: "(string \<Rightarrow> int option) \<Rightarrow> string \<Rightarrow> py_exn + int" where
  \<comment> \<open>the body of the \<^verbatim>\<open>try\<close>\<close>
  "parse_port int_of port_str =
     (case int_of port_str of
        None \<Rightarrow> Inl (ValueError (Invalid_literal port_str))
      | Some port \<Rightarrow>
          if \<not> (0 \<le> port \<and> port \<le> 65535) then Inl (ValueError (Port_out_of_range port))
          else Inr port)"

definition split_address ::
  "(string \<Rightarrow> int option) \<Rightarrow> string \<Rightarrow> py_exn + (string \<times> int)" where
  "split_address int_of address =
     (if CHR '':'' \<notin> set address then Inl (ValueError (Invalid_address_format address))
      else
        let (host, port_str) = rsplit_colon address in
        if host = [] then Inl (ValueError Host_part_empty)
        else if port_str = [] then Inl (ValueError Port_part_empty)
        else case parse_port int_of port_str of
               Inl exc \<Rightarrow> (if is_ValueError exc then Inl (ValueError (Invalid_port port_str))
                           else Inl exc)
             | Inr port \<Rightarrow> Inr (host, port))"

text \<open>
  What \<^verbatim>\<open>int\<close> answers on the port texts of the examples below: \<^verbatim>\<open>int("8080")\<close> is 8080,
  \<^verbatim>\<open>int("65536")\<close> is 65536 and \<^verbatim>\<open>int("http")\<close> raises.  No other text is asked for there.
\<close>

definition demo_int :: "string \<Rightarrow> int option" where
  "demo_int s =
     (if s = ''8080'' then Some 8080 else if s = ''65536'' then Some 65536 else None)"

section \<open>\<^verbatim>\<open>runtime.connections\<close>: the WebSocket relay\<close>

subsection \<open>Data\<close>

text \<open>
  What \<^verbatim>\<open>json.loads\<close> returns.  A JSON object becomes a \<^verbatim>\<open>dict\<close> with string keys,
  kept as an association list read with \<open>map_of\<close>; \<open>JNum\<close> stands for every number.
\<close>

datatype json =
    JNull
  | JBool bool
  | JNum int
  | JStr string
  | JArr "json list"
  | JObj "(string \<times> json) list"

text \<open>\<^verbatim>\<open>isinstance(payload, dict)\<close>\<close>

fun is_dict :: "json \<Rightarrow> bool" where
  "is_dict (JObj _) = True"
| "is_dict _ = False"

fun dict_items :: "json \<Rightarrow> (string \<times> json) list" where
  "dict_items (JObj kvs) = kvs"
| "dict_items _ = []"

text \<open>\<^verbatim>\<open>k in payload\<close> and \<^verbatim>\<open>payload[k]\<close>, the latter only used behind the former.\<close>

definition has_key :: "json \<Rightarrow> string \<Rightarrow> bool" where
  "has_key payload k = (map_of (dict_items payload) k \<noteq> None)"

definition getitem :: "json \<Rightarrow> string \<Rightarrow> json" where
  "getitem payload k = the (map_of (dict_items payload) k)"

definition envelope_keys :: "string list" where
  "envelope_keys = [''cmd'', ''result_id'', ''error_id'', ''payload'']"

text \<open>Lists and dicts are unhashable: looking one up in a \<^verbatim>\<open>dict\<close> raises \<^verbatim>\<open>TypeError\<close>.\<close>

fun hashable :: "json \<Rightarrow> bool" where
  "hashable (JArr _) = False"
| "hashable (JObj _) = False"
| "hashable _ = True"

text \<open>A handler function; only its \<^verbatim>\<open>__name__\<close> is read here.\<close>

datatype handler = Handler (fn_name: string)

type_synonym registry = "(string \<times> handler list) list"

text \<open>\<^verbatim>\<open>cmd in _event_callbacks\<close> for a hashable \<open>cmd\<close>: the keys are strings.\<close>

fun registered :: "registry \<Rightarrow> json \<Rightarrow> bool" where
  "registered reg (JStr name) = (name \<in> set (map fst reg))"
| "registered reg _ = False"

definition list_commands :: "registry \<Rightarrow> (string \<times> string list) list" where
  "list_commands reg = map (\<lambda>(key, funcs). (key, map fn_name funcs)) reg"

type_synonym client = nat

datatype log_level = Info | Warning | Error

datatype log_entry =
    Ignoring_non_dict_payload json
  | No_handler_registered json "(string \<times> string list) list"
  | Incomplete_message_keys json
  | Malformed_JSON client py_exn
  | Unexpected_error py_exn
  | Client_disconnected client

fun level :: "log_entry \<Rightarrow> log_level" where
  "level (Ignoring_non_dict_payload _) = Warning"
| "level (No_handler_registered _ _) = Error"
| "level (Incomplete_message_keys _) = Warning"
| "level (Malformed_JSON _ _) = Error"
| "level (Unexpected_error _) = Error"
| "level (Client_disconnected _) = Info"

text \<open>
  The collaborators of the relay that are not part of \<^verbatim>\<open>connections.py\<close>: the JSON
  library, the registry and dispatcher of \<^verbatim>\<open>pyinvoke\<close>, the serialisation of a response and
  the transport.  \<open>client_send env c msg = None\<close> says that \<^verbatim>\<open>c.send(msg)\<close> succeeds.
\<close>

record 'r env =
  json_loads :: "string \<Rightarrow> py_exn + json"
  event_callbacks :: registry
  make_callback :: "json \<Rightarrow> json \<Rightarrow> json \<Rightarrow> json \<Rightarrow> py_exn + 'r"
  dump_response :: "'r \<Rightarrow> py_exn + string"
  client_send :: "client \<Rightarrow> string \<Rightarrow> py_exn option"

text \<open>
  The state the relay reads and writes: \<^verbatim>\<open>core.connected_clients\<close> (a Python set, kept as
  a duplicate-free list in its iteration order, which the theorems leave arbitrary), and the
  traces of its effects: the log, the calls of \<^verbatim>\<open>make_callback\<close>, the calls of
  \<^verbatim>\<open>client.send\<close> and those of them that succeeded.  One message is handled from the
  state in which it finds the relay; what other handlers do while this one awaits the
  dispatcher is not part of the model, so the set read at the broadcast is the one of that
  state.
\<close>

record relay_state =
  connected_clients :: "client list"
  log :: "log_entry list"
  calls :: "(json \<times> json \<times> json \<times> json) list"
  send_calls :: "(client \<times> string) list"
  delivered :: "(client \<times> string) list"

definition set_add :: "'a \<Rightarrow> 'a list \<Rightarrow> 'a list" where
  "set_add x xs = (if x \<in> set xs then xs else xs @ [x])"

definition set_discard :: "'a \<Rightarrow> 'a list \<Rightarrow> 'a list" where
  "set_discard x xs = removeAll x xs"

definition add_log :: "log_entry \<Rightarrow> relay_state \<Rightarrow> relay_state" where
  "add_log e st = st\<lparr>log := log st @ [e]\<rparr>"

subsection \<open>The broadcast\<close>

text \<open>
  \<^verbatim>\<open>await asyncio.gather(*(client.send(response_msg) for client in core.connected_clients))\<close>:
  the generator is run to its end before \<^verbatim>\<open>gather\<close> is called, \<^verbatim>\<open>gather\<close> schedules every
  send, and without \<^verbatim>\<open>return_exceptions\<close> the first exception raised reaches the awaiting
  handler while the other sends are not cancelled and run on.
\<close>

definition broadcast :: "'r env \<Rightarrow> string \<Rightarrow> relay_state \<Rightarrow> py_exn option \<times> relay_state" where
  "broadcast env response_msg st =
     (let clients = connected_clients st;
          st' = st\<lparr>send_calls := send_calls st @ map (\<lambda>c. (c, response_msg)) clients,
                   delivered := delivered st @
                     map (\<lambda>c. (c, response_msg))
                       (filter (\<lambda>c. client_send env c response_msg = None) clients)\<rparr>
      in (case List.map_filter (\<lambda>c. client_send env c response_msg) clients of
            [] \<Rightarrow> (None, st')
          | exc # _ \<Rightarrow> (Some exc, st')))"

subsection \<open>One inbound message\<close>

text \<open>The body of the inner \<^verbatim>\<open>try\<close>: the exception it raises, if any, and the state it leaves.\<close>

definition try_body :: "'r env \<Rightarrow> string \<Rightarrow> relay_state \<Rightarrow> py_exn option \<times> relay_state" where
  "try_body env message st =
     (case json_loads env message of
        Inl exc \<Rightarrow> (Some exc, st)
      | Inr payload \<Rightarrow>
          if \<not> is_dict payload then (None, add_log (Ignoring_non_dict_payload payload) st)
          else if list_all (has_key payload) envelope_keys then
            let cmd = getitem payload ''cmd'' in
            if \<not> hashable cmd then (Some TypeError, st)
            else if \<not> registered (event_callbacks env) cmd then
              (None, add_log (No_handler_registered cmd (list_commands (event_callbacks env))) st)
            else
              let result_id = getitem payload ''result_id'';
                  error_id = getitem payload ''error_id'';
                  arg = getitem payload ''payload'';
                  st1 = st\<lparr>calls := calls st @ [(cmd, result_id, error_id, arg)]\<rparr>
              in (case make_callback env cmd result_id error_id arg of
                    Inl exc \<Rightarrow> (Some exc, st1)
                  | Inr response \<Rightarrow>
                      (case dump_response env response of
                         Inl exc \<Rightarrow> (Some exc, st1)
                       | Inr response_msg \<Rightarrow> broadcast env response_msg st1))
          else (None, add_log (Incomplete_message_keys payload) st))"

text \<open>
  The inner \<^verbatim>\<open>try\<close> with its two \<^verbatim>\<open>except\<close> clauses: one pass of the \<^verbatim>\<open>async for\<close> body.
  An exception that is no \<^verbatim>\<open>Exception\<close> (a cancellation) leaves the loop.
\<close>

definition handle_message ::
  "'r env \<Rightarrow> client \<Rightarrow> string \<Rightarrow> relay_state \<Rightarrow> py_exn option \<times> relay_state" where
  "handle_message env websocket message st =
     (case try_body env message st of
        (None, st') \<Rightarrow> (None, st')
      | (Some exc, st') \<Rightarrow>
          if exc = JSONDecodeError then (None, add_log (Malformed_JSON websocket exc) st')
          else if is_Exception exc then (None, add_log (Unexpected_error exc) st')
          else (Some exc, st'))"

subsection \<open>One connection\<close>

text \<open>How the stream of a connection ends: \<^verbatim>\<open>async for\<close> stops on a normal close and
  raises on an abnormal one, or the task is cancelled while it waits.\<close>

datatype stream_end = Closed_ok | Closed_error | Cancelled

fun stream_end_exn :: "stream_end \<Rightarrow> py_exn option" where
  "stream_end_exn Closed_ok = None"
| "stream_end_exn Closed_error = Some ConnectionClosed"
| "stream_end_exn Cancelled = Some CancelledError"

fun message_loop ::
  "'r env \<Rightarrow> client \<Rightarrow> string list \<Rightarrow> stream_end \<Rightarrow> relay_state \<Rightarrow> py_exn option \<times> relay_state" where
  "message_loop env websocket [] e st = (stream_end_exn e, st)"
| "message_loop env websocket (message # rest) e st =
     (case handle_message env websocket message st of
        (None, st') \<Rightarrow> message_loop env websocket rest e st'
      | (Some exc, st') \<Rightarrow> (Some exc, st'))"

definition handle_frontend_connections ::
  "'r env \<Rightarrow> client \<Rightarrow> string list \<Rightarrow> stream_end \<Rightarrow> relay_state \<Rightarrow> py_exn option \<times> relay_state" where
  "handle_frontend_connections env websocket messages e st =
     (let st0 = st\<lparr>connected_clients := set_add websocket (connected_clients st)\<rparr>;
          (exc, st1) = message_loop env websocket messages e st0;
          (exc', st2) = (if exc = Some ConnectionClosed
                         then (None, add_log (Client_disconnected websocket) st1)
                         else (exc, st1))
      in (exc', st2\<lparr>connected_clients := set_discard websocket (connected_clients st2)\<rparr>))"

subsection \<open>A relay with three clients\<close>

text \<open>
  A concrete relay in which the properties below are run: one registered command,
  \<^verbatim>\<open>home_dir\<close>, three connected clients of which client 2 has a broken connection, and a
  JSON library that knows the five messages named here (any other text is malformed).
  The first envelope is the one of the round-trip example of the specification.
\<close>

definition home_dir_envelope :: json where
  "home_dir_envelope =
     JObj [(''cmd'', JStr ''home_dir''), (''result_id'', JStr ''r1''),
           (''error_id'', JStr []), (''payload'', JObj [])]"

definition extra_key_envelope :: json where
  "extra_key_envelope =
     JObj [(''cmd'', JStr ''home_dir''), (''result_id'', JStr ''r1''),
           (''error_id'', JStr []), (''payload'', JObj []), (''extra'', JNull)]"

definition unknown_cmd_envelope :: json where
  "unknown_cmd_envelope =
     JObj [(''cmd'', JStr ''no_such_command''), (''result_id'', JStr ''r2''),
           (''error_id'', JStr []), (''payload'', JObj [])]"

definition incomplete_envelope :: json where
  "incomplete_envelope =
     JObj [(''cmd'', JStr ''home_dir''), (''result_id'', JStr ''r3''), (''error_id'', JStr [])]"

definition demo_loads :: "string \<Rightarrow> py_exn + json" where
  "demo_loads message =
     (if message = ''home_dir'' then Inr home_dir_envelope
      else if message = ''extra'' then Inr extra_key_envelope
      else if message = ''unknown'' then Inr unknown_cmd_envelope
      else if message = ''incomplete'' then Inr incomplete_envelope
      else if message = ''array'' then Inr (JArr [JNum 1])
      else Inl JSONDecodeError)"

definition demo_env :: "string env" where
  "demo_env =
     \<lparr>json_loads = demo_loads,
      event_callbacks = [(''home_dir'', [Handler ''home_dir''])],
      make_callback = (\<lambda>cmd result_id error_id arg. Inr ''response''),
      dump_response = (\<lambda>response. Inr response),
      client_send = (\<lambda>c msg. if c = 2 then Some ConnectionClosed else None)\<rparr>"

definition demo_state :: relay_state where
  "demo_state =
     \<lparr>connected_clients = [1, 2, 3], log = [], calls = [], send_calls = [], delivered = []\<rparr>"

section \<open>\<^verbatim>\<open>runtime.runtime\<close>: background tasks and shutdown\<close>

subsection \<open>The event loop, as far as tasks and their done-callbacks go\<close>

type_synonym task = nat

text \<open>The only done-callback the sources register: \<^verbatim>\<open>core.background_tasks.discard\<close>.\<close>

datatype callback = Discard_background_task

text \<open>
  \<open>coro_of\<close> holds the tasks created on the loop, \<open>finished\<close> those that are done,
  \<open>done_callbacks\<close> the callbacks registered on a task that is not done, \<open>ready\<close> the
  callbacks the loop has scheduled (\<^verbatim>\<open>call_soon\<close>) and not yet run, each with the task it
  will be called with.  \<open>background_tasks\<close> is \<^verbatim>\<open>core.background_tasks\<close>.  The last three
  fields are traces: the calls of \<^verbatim>\<open>task.cancel()\<close>, the tasks handed to \<^verbatim>\<open>gather\<close>, and
  the exceptions that were printed.
\<close>

record 'c loop_state =
  next_task :: nat
  coro_of :: "task \<Rightarrow> 'c option"
  finished :: "task \<Rightarrow> bool"
  done_callbacks :: "task \<Rightarrow> callback list"
  ready :: "(callback \<times> task) list"
  background_tasks :: "task list"
  cancel_calls :: "task list"
  awaited :: "task list"
  printed :: "py_exn list"

definition loop0 :: "'c loop_state" where
  "loop0 = \<lparr>next_task = 0, coro_of = (\<lambda>_. None), finished = (\<lambda>_. False),
            done_callbacks = (\<lambda>_. []), ready = [], background_tasks = [],
            cancel_calls = [], awaited = [], printed = []\<rparr>"

text \<open>\<^verbatim>\<open>asyncio.create_task(coro)\<close>: a new task object, not done, without callbacks.\<close>

definition create_task :: "'c \<Rightarrow> 'c loop_state \<Rightarrow> task \<times> 'c loop_state" where
  "create_task coro st =
     (next_task st,
      st\<lparr>next_task := Suc (next_task st),
         coro_of := (coro_of st)(next_task st := Some coro),
         finished := (finished st)(next_task st := False),
         done_callbacks := (done_callbacks st)(next_task st := [])\<rparr>)"

text \<open>\<^verbatim>\<open>task.add_done_callback(cb)\<close>: scheduled at once when the task is already done.\<close>

definition add_done_callback :: "task \<Rightarrow> callback \<Rightarrow> 'c loop_state \<Rightarrow> 'c loop_state" where
  "add_done_callback t cb st =
     (if finished st t then st\<lparr>ready := ready st @ [(cb, t)]\<rparr>
      else st\<lparr>done_callbacks := (done_callbacks st)(t := done_callbacks st t @ [cb])\<rparr>)"

definition launch_background_task :: "'c \<Rightarrow> 'c loop_state \<Rightarrow> task \<times> 'c loop_state" where
  "launch_background_task coro st =
     (let (task, st1) = create_task coro st;
          st2 = st1\<lparr>background_tasks := set_add task (background_tasks st1)\<rparr>;
          st3 = add_done_callback task Discard_background_task st2
      in (task, st3))"

text \<open>A task that is not done completes: the loop schedules its done-callbacks.\<close>

definition finish_task :: "task \<Rightarrow> 'c loop_state \<Rightarrow> 'c loop_state" where
  "finish_task t st =
     (if coro_of st t \<noteq> None \<and> \<not> finished st t
      then st\<lparr>finished := (finished st)(t := True),
              ready := ready st @ map (\<lambda>cb. (cb, t)) (done_callbacks st t),
              done_callbacks := (done_callbacks st)(t := [])\<rparr>
      else st)"

fun run_callback :: "callback \<times> task \<Rightarrow> 'c loop_state \<Rightarrow> 'c loop_state" where
  "run_callback (Discard_background_task, t) st =
     st\<lparr>background_tasks := set_discard t (background_tasks st)\<rparr>"

text \<open>The loop runs the first scheduled callback.\<close>

definition run_ready :: "'c loop_state \<Rightarrow> 'c loop_state" where
  "run_ready st = (case ready st of [] \<Rightarrow> st | h # hs \<Rightarrow> run_callback h (st\<lparr>ready := hs\<rparr>))"

datatype 'c event = Create 'c | Launch 'c | Finish task | Run_ready

fun step :: "'c event \<Rightarrow> 'c loop_state \<Rightarrow> 'c loop_state" where
  "step (Create coro) st = snd (create_task coro st)"
| "step (Launch coro) st = snd (launch_background_task coro st)"
| "step (Finish t) st = finish_task t st"
| "step Run_ready st = run_ready st"

text \<open>The state after a history of events, oldest first.\<close>

definition exec :: "'c event list \<Rightarrow> 'c loop_state \<Rightarrow> 'c loop_state" where
  "exec evs st = fold step evs st"

text \<open>The discard callback of \<open>t\<close> has not run yet: it is registered or scheduled.\<close>

definition discard_outstanding :: "'c loop_state \<Rightarrow> task \<Rightarrow> bool" where
  "discard_outstanding st t =
     (Discard_background_task \<in> set (done_callbacks st t) \<or>
      (Discard_background_task, t) \<in> set (ready st))"

text \<open>
  What holds of the loop at every moment: a background task is a task of the loop whose
  discard callback is outstanding, tasks have numbers below \<open>next_task\<close>, and a task that
  is done has no registered callbacks left.
\<close>

definition well_tracked :: "'c loop_state \<Rightarrow> bool" where
  "well_tracked st \<longleftrightarrow>
     (\<forall>t \<in> set (background_tasks st). coro_of st t \<noteq> None \<and> discard_outstanding st t) \<and>
     (\<forall>t. coro_of st t \<noteq> None \<longrightarrow> t < next_task st) \<and>
     (\<forall>t. finished st t \<longrightarrow> done_callbacks st t = [])"

subsection \<open>\<^verbatim>\<open>cancel_all_tasks\<close>\<close>



















subsection \<open>\<^verbatim>\<open>terminate_process_safely\<close>\<close>

text \<open>
  The spawned process as the function sees it.  \<open>clock\<close> is the time, \<open>exit_time\<close> the
  moment at which the process exits as things stand (\<open>None\<close>: it keeps running),
  \<open>sigterm_delay\<close> how long it takes to exit once asked to terminate (\<open>None\<close>: it ignores
  the request), \<open>sigkill_delay\<close> how long the system takes to end it once killed, which no
  process can refuse.  \<open>trace\<close> lists the calls made on the process.
\<close>

datatype proc_call = Join "rat option" | Terminate | Kill

record process =
  clock :: rat
  exit_time :: "rat option"
  sigterm_delay :: "rat option"
  sigkill_delay :: rat
  trace :: "proc_call list"

definition is_alive :: "process \<Rightarrow> bool" where
  "is_alive p = (case exit_time p of None \<Rightarrow> True | Some e \<Rightarrow> clock p < e)"

fun sooner :: "rat option \<Rightarrow> rat \<Rightarrow> rat option" where
  "sooner None t = Some t"
| "sooner (Some e) t = Some (min e t)"

text \<open>\<^verbatim>\<open>proc.join(timeout)\<close> returns when the process has exited or the timeout is over.\<close>

definition join_timeout :: "rat \<Rightarrow> process \<Rightarrow> process" where
  "join_timeout t p =
     p\<lparr>clock := (case exit_time p of
                   None \<Rightarrow> clock p + t
                 | Some e \<Rightarrow> if e \<le> clock p + t then max (clock p) e else clock p + t),
       trace := trace p @ [Join (Some t)]\<rparr>"

text \<open>\<^verbatim>\<open>proc.join()\<close> returns when the process has exited, and not before.\<close>

definition join_forever :: "process \<Rightarrow> process option" where
  "join_forever p =
     (case exit_time p of
        None \<Rightarrow> None
      | Some e \<Rightarrow> Some (p\<lparr>clock := max (clock p) e, trace := trace p @ [Join None]\<rparr>))"

definition terminate :: "process \<Rightarrow> process" where
  "terminate p =
     p\<lparr>exit_time := (case sigterm_delay p of
                       None \<Rightarrow> exit_time p
                     | Some d \<Rightarrow> sooner (exit_time p) (clock p + d)),
       trace := trace p @ [Terminate]\<rparr>"

definition kill :: "process \<Rightarrow> process" where
  "kill p = p\<lparr>exit_time := sooner (exit_time p) (clock p + sigkill_delay p),
              trace := trace p @ [Kill]\<rparr>"

definition terminate_process_safely :: "process \<Rightarrow> process option" where
  "terminate_process_safely proc =
     (let p1 = join_timeout 3 proc;
          p2 = (if is_alive p1 then join_timeout 2 (terminate p1) else p1)
      in if is_alive p2 then join_forever (kill p2) else Some p2)"

text \<open>A process that neither exits by itself nor reacts to a terminate request.\<close>

definition stubborn :: process where
  "stubborn = \<lparr>clock = 0, exit_time = None, sigterm_delay = None, sigkill_delay = 1 / 2, trace = []\<rparr>"

section \<open>\<^verbatim>\<open>__main__\<close>: the command line\<close>

text \<open>The names bound at the top level of \<^verbatim>\<open>pyorion/utils.py\<close>, imports first.\<close>

definition utils_names :: "string list" where
  "utils_names =
     [''dataclasses'', ''socket'', ''Path'', ''Any'', ''BaseModel'',
      ''find_folder'', ''load_html'', ''_fallback_html'', ''find_free_ports_and_create_addrs'',
      ''split_address'', ''make_json_safe'', ''normalize_args'']"

text \<open>\<^verbatim>\<open>from module import name\<close>\<close>

definition import_from :: "string list \<Rightarrow> string \<Rightarrow> py_exn + string" where
  "import_from names name = (if name \<in> set names then Inr name else Inl ImportError)"

datatype run = Exited nat | Uncaught py_exn

fun exit_status :: "run \<Rightarrow> nat" where
  "exit_status (Exited n) = n"
| "exit_status (Uncaught _) = 1"

text \<open>
  The \<^verbatim>\<open>click\<close> group with its one command, named \<^verbatim>\<open>remove-pycash\<close> after the function.
  \<open>removal\<close> is what the call of the imported function does: \<open>None\<close> when it returns.
\<close>

definition cli :: "py_exn option \<Rightarrow> string list \<Rightarrow> run" where
  "cli removal argv =
     (case argv of
        [] \<Rightarrow> Exited 0
      | name # _ \<Rightarrow>
          if name = ''remove-pycash''
          then (case removal of None \<Rightarrow> Exited 0 | Some exc \<Rightarrow> Uncaught exc)
          else Exited 2)"

text \<open>\<^verbatim>\<open>python -m pyorion argv\<close>: the module body runs its imports, then \<^verbatim>\<open>cli()\<close>.\<close>

definition run_main :: "py_exn option \<Rightarrow> string list \<Rightarrow> run" where
  "run_main removal argv =
     (case import_from utils_names ''remove_pycash'' of
        Inl exc \<Rightarrow> Uncaught exc
      | Inr _ \<Rightarrow> cli removal argv)"

section \<open>Properties of \<^verbatim>\<open>split_address\<close>\<close>

text \<open>\<^verbatim>\<open>rsplit(":", 1)\<close> cuts at the last colon: the second part holds none.\<close>

lemma rsplit_colon_append:
  assumes "CHR '':'' \<notin> set port_str"
  shows "rsplit_colon (host @ CHR '':'' # port_str) = (host, port_str)"
proof -
  have r: "rev (host @ CHR '':'' # port_str) = rev port_str @ CHR '':'' # rev host"
    by simp
  have all: "\<forall>c \<in> set (rev port_str). c \<noteq> CHR '':''"
    using assms by auto
  have t: "takeWhile (\<lambda>c. c \<noteq> CHR '':'') (rev port_str @ CHR '':'' # rev host) = rev port_str"
    using all by (simp add: takeWhile_tail)
  have d: "dropWhile (\<lambda>c. c \<noteq> CHR '':'') (rev port_str @ CHR '':'' # rev host) = CHR '':'' # rev host"
    using all by (simp add: dropWhile_append3)
  show ?thesis
    unfolding rsplit_colon_def r t d by simp
qed

lemma last_colon_split:
  assumes "CHR '':'' \<in> set a"
  shows "\<exists>host port_str. a = host @ CHR '':'' # port_str \<and> CHR '':'' \<notin> set port_str"
  using assms by (metis split_list_last)

lemma parse_port_cases:
  "parse_port int_of p =
     (case int_of p of None \<Rightarrow> Inl (ValueError (Invalid_literal p))
      | Some n \<Rightarrow> if 0 \<le> n \<and> n \<le> 65535 then Inr n else Inl (ValueError (Port_out_of_range n)))"
  by (simp add: parse_port_def split: option.splits)

text \<open>
  Claim C10.  An address without a colon raises \<^verbatim>\<open>ValueError\<close>.  An address with a colon
  is \<open>host\<close>, a colon and \<open>port_str\<close> in exactly the way that leaves no colon in \<open>port_str\<close>;
  it raises \<^verbatim>\<open>ValueError\<close> when \<open>host\<close> is empty, \<open>port_str\<close> is empty, \<^verbatim>\<open>int\<close> refuses
  \<open>port_str\<close> or the number is outside 0 to 65535, and returns \<open>host\<close> with that number in
  every other case.  No other exception is raised.  This holds whatever \<^verbatim>\<open>int\<close> accepts.
\<close>

theorem split_address_value_error_iff:
  "(CHR '':'' \<notin> set a \<longrightarrow> (\<exists>m. split_address int_of a = Inl (ValueError m))) \<and>
   (CHR '':'' \<in> set a \<longrightarrow>
      (\<exists>h p. a = h @ CHR '':'' # p \<and> CHR '':'' \<notin> set p)) \<and>
   (a = host @ CHR '':'' # port_str \<and> CHR '':'' \<notin> set port_str \<longrightarrow>
      (if host = [] \<or> port_str = [] \<or> int_of port_str = None \<or>
          \<not> (0 \<le> the (int_of port_str) \<and> the (int_of port_str) \<le> 65535)
       then (\<exists>m. split_address int_of a = Inl (ValueError m))
       else split_address int_of a = Inr (host, the (int_of port_str))))"
proof (intro conjI impI)
  assume "CHR '':'' \<notin> set a"
  then show "\<exists>m. split_address int_of a = Inl (ValueError m)"
    by (simp add: split_address_def)
next
  assume "CHR '':'' \<in> set a"
  then show "\<exists>h p. a = h @ CHR '':'' # p \<and> CHR '':'' \<notin> set p"
    by (rule last_colon_split)
next
  assume h: "a = host @ CHR '':'' # port_str \<and> CHR '':'' \<notin> set port_str"
  then have rs: "rsplit_colon a = (host, port_str)"
    by (simp add: rsplit_colon_append)
  have mem: "CHR '':'' \<in> set a" using h by simp
  show "if host = [] \<or> port_str = [] \<or> int_of port_str = None \<or>
          \<not> (0 \<le> the (int_of port_str) \<and> the (int_of port_str) \<le> 65535)
       then (\<exists>m. split_address int_of a = Inl (ValueError m))
       else split_address int_of a = Inr (host, the (int_of port_str))"
    using mem rs
    by (auto simp: split_address_def parse_port_cases split: option.splits)
qed

theorem split_address_value_error_iff_witness:
  "split_address demo_int ''localhost:8080'' = Inr (''localhost'', 8080) \<and>
   (\<exists>m. split_address demo_int ''localhost:65536'' = Inl (ValueError m)) \<and>
   (\<exists>m. split_address demo_int ''localhost:http'' = Inl (ValueError m)) \<and>
   (\<exists>m. split_address demo_int ''localhost'' = Inl (ValueError m))"
proof -
  have a: "split_address demo_int ''localhost:8080'' = Inr (''localhost'', 8080)"
    using split_address_value_error_iff
      [of "''localhost:8080''" demo_int "''localhost''" "''8080''"]
    by (simp add: demo_int_def)
  have b: "\<exists>m. split_address demo_int ''localhost:65536'' = Inl (ValueError m)"
    using split_address_value_error_iff
      [of "''localhost:65536''" demo_int "''localhost''" "''65536''"]
    by (simp add: demo_int_def)
  have c: "\<exists>m. split_address demo_int ''localhost:http'' = Inl (ValueError m)"
    using split_address_value_error_iff
      [of "''localhost:http''" demo_int "''localhost''" "''http''"]
    by (simp add: demo_int_def)
  have d: "\<exists>m. split_address demo_int ''localhost'' = Inl (ValueError m)"
    using split_address_value_error_iff [of "''localhost''" demo_int]
    by simp
  show ?thesis using a b c d by blast
qed

section \<open>Properties of the relay\<close>

subsection \<open>What a message leaves unchanged\<close>

lemma broadcast_state:
  "snd (broadcast env msg st) =
     st\<lparr>send_calls := send_calls st @ map (\<lambda>c. (c, msg)) (connected_clients st),
        delivered := delivered st @
          map (\<lambda>c. (c, msg)) (filter (\<lambda>c. client_send env c msg = None) (connected_clients st))\<rparr>"
  by (simp add: broadcast_def Let_def split: list.splits)

lemma broadcast_raises:
  "fst (broadcast env msg st) = None \<longleftrightarrow>
     (\<forall>c \<in> set (connected_clients st). client_send env c msg = None)"
proof -
  have "List.map_filter (\<lambda>c. client_send env c msg) (connected_clients st) = [] \<longleftrightarrow>
        (\<forall>c \<in> set (connected_clients st). client_send env c msg = None)"
    by (auto simp: List.map_filter_def filter_empty_conv)
  then show ?thesis
    by (auto simp: broadcast_def Let_def split: list.splits)
qed

lemma try_body_clients:
  "connected_clients (snd (try_body env message st)) = connected_clients st"
  by (simp add: try_body_def add_log_def broadcast_state Let_def split: sum.splits)

lemma handle_message_clients:
  "connected_clients (snd (handle_message env ws message st)) = connected_clients st"
proof -
  obtain x st' where tb: "try_body env message st = (x, st')"
    by (cases "try_body env message st")
  then have "connected_clients st' = connected_clients st"
    using try_body_clients [of env message st] by simp
  then show ?thesis
    by (simp add: handle_message_def tb add_log_def split: option.splits)
qed

lemma message_loop_clients:
  "connected_clients (snd (message_loop env ws ms e st)) = connected_clients st"
proof (induction ms arbitrary: st)
  case Nil
  then show ?case by simp
next
  case (Cons m ms)
  obtain x st' where hm: "handle_message env ws m st = (x, st')"
    by (cases "handle_message env ws m st")
  then have c: "connected_clients st' = connected_clients st"
    using handle_message_clients [of env ws m st] by simp
  show ?case
    using Cons.IH [of st'] c by (simp add: hm split: option.splits)
qed

lemma try_body_dispatch:
  assumes "json_loads env message = Inr payload"
    and "is_dict payload"
    and "list_all (has_key payload) envelope_keys"
    and "getitem payload ''cmd'' = JStr name"
    and "name \<in> set (map fst (event_callbacks env))"
  shows "try_body env message st =
     (let st1 = st\<lparr>calls := calls st @
                 [(JStr name, getitem payload ''result_id'', getitem payload ''error_id'',
                   getitem payload ''payload'')]\<rparr>
      in case make_callback env (JStr name) (getitem payload ''result_id'')
                (getitem payload ''error_id'') (getitem payload ''payload'') of
           Inl exc \<Rightarrow> (Some exc, st1)
         | Inr response \<Rightarrow>
             (case dump_response env response of
                Inl exc \<Rightarrow> (Some exc, st1)
              | Inr response_msg \<Rightarrow> broadcast env response_msg st1))"
  using assms by (simp add: try_body_def Let_def)

lemma handle_message_state:
  "snd (handle_message env ws message st) =
     (case fst (try_body env message st) of
        None \<Rightarrow> snd (try_body env message st)
      | Some exc \<Rightarrow>
          if exc = JSONDecodeError then add_log (Malformed_JSON ws exc) (snd (try_body env message st))
          else if is_Exception exc then add_log (Unexpected_error exc) (snd (try_body env message st))
          else snd (try_body env message st))"
  by (simp add: handle_message_def split: prod.splits option.splits)

lemma handle_message_send_calls:
  "send_calls (snd (handle_message env ws message st)) = send_calls (snd (try_body env message st))"
  by (simp add: handle_message_state add_log_def split: option.splits)

lemma handle_message_delivered:
  "delivered (snd (handle_message env ws message st)) = delivered (snd (try_body env message st))"
  by (simp add: handle_message_state add_log_def split: option.splits)

lemma handle_message_calls:
  "calls (snd (handle_message env ws message st)) = calls (snd (try_body env message st))"
  by (simp add: handle_message_state add_log_def split: option.splits)

text \<open>
  Claim C6.  A message that is malformed JSON, or whose top level is no object, or whose
  object lacks one of the four keys, adds one log entry of level warning or error and
  changes nothing else: no handler is called, nothing is sent, no exception leaves the
  loop body, and the loop goes on with the next message of the connection.
\<close>

theorem rejected_message_is_dropped:
  assumes "json_loads env message = Inl JSONDecodeError \<or>
           (\<exists>payload. json_loads env message = Inr payload \<and>
              (\<not> is_dict payload \<or> (\<exists>k \<in> set envelope_keys. \<not> has_key payload k)))"
  shows "\<exists>entry. (level entry = Warning \<or> level entry = Error) \<and>
           handle_message env websocket message st = (None, st\<lparr>log := log st @ [entry]\<rparr>) \<and>
           message_loop env websocket (message # rest) e st =
             message_loop env websocket rest e (st\<lparr>log := log st @ [entry]\<rparr>)"
proof -
  have "\<exists>entry. (level entry = Warning \<or> level entry = Error) \<and>
           handle_message env websocket message st = (None, st\<lparr>log := log st @ [entry]\<rparr>)"
    using assms
  proof (elim disjE exE conjE)
    assume "json_loads env message = Inl JSONDecodeError"
    then have "handle_message env websocket message st =
                 (None, st\<lparr>log := log st @ [Malformed_JSON websocket JSONDecodeError]\<rparr>)"
      by (simp add: handle_message_def try_body_def add_log_def)
    then show ?thesis by (intro exI [of _ "Malformed_JSON websocket JSONDecodeError"]) simp
  next
    fix payload
    assume l: "json_loads env message = Inr payload" and "\<not> is_dict payload"
    then have "handle_message env websocket message st =
                 (None, st\<lparr>log := log st @ [Ignoring_non_dict_payload payload]\<rparr>)"
      by (simp add: handle_message_def try_body_def add_log_def)
    then show ?thesis by (intro exI [of _ "Ignoring_non_dict_payload payload"]) simp
  next
    fix payload
    assume l: "json_loads env message = Inr payload"
      and k: "\<exists>k \<in> set envelope_keys. \<not> has_key payload k"
    from k have nall: "\<not> list_all (has_key payload) envelope_keys"
      by (auto simp: list_all_iff)
    show ?thesis
    proof (cases "is_dict payload")
      case True
      then have "handle_message env websocket message st =
                 (None, st\<lparr>log := log st @ [Incomplete_message_keys payload]\<rparr>)"
        using l nall by (simp add: handle_message_def try_body_def add_log_def)
      then show ?thesis by (intro exI [of _ "Incomplete_message_keys payload"]) simp
    next
      case False
      then have "handle_message env websocket message st =
                 (None, st\<lparr>log := log st @ [Ignoring_non_dict_payload payload]\<rparr>)"
        using l by (simp add: handle_message_def try_body_def add_log_def)
      then show ?thesis by (intro exI [of _ "Ignoring_non_dict_payload payload"]) simp
    qed
  qed
  then obtain entry where lv: "level entry = Warning \<or> level entry = Error"
    and hm: "handle_message env websocket message st = (None, st\<lparr>log := log st @ [entry]\<rparr>)"
    by blast
  have "message_loop env websocket (message # rest) e st =
          message_loop env websocket rest e (st\<lparr>log := log st @ [entry]\<rparr>)"
    by (simp add: hm)
  with lv hm show ?thesis by blast
qed

text \<open>
  Claim C3.  An envelope with all four keys whose \<^verbatim>\<open>cmd\<close> names no registered command adds
  one error entry that carries the command and the known commands with their handlers, and
  changes nothing else: no handler is called, nothing is sent, nothing is raised, and the
  loop goes on with the next message of the connection.
\<close>

theorem unregistered_command_fails_softly:
  assumes "json_loads env message = Inr payload"
    and "is_dict payload"
    and "list_all (has_key payload) envelope_keys"
    and "getitem payload ''cmd'' = JStr name"
    and "name \<notin> set (map fst (event_callbacks env))"
  shows "handle_message env websocket message st =
           (None, st\<lparr>log := log st @
                    [No_handler_registered (JStr name) (list_commands (event_callbacks env))]\<rparr>) \<and>
         map fst (list_commands (event_callbacks env)) = map fst (event_callbacks env) \<and>
         message_loop env websocket (message # rest) e st =
           message_loop env websocket rest e
             (st\<lparr>log := log st @
                    [No_handler_registered (JStr name) (list_commands (event_callbacks env))]\<rparr>)"
proof -
  have hm: "handle_message env websocket message st =
           (None, st\<lparr>log := log st @
                    [No_handler_registered (JStr name) (list_commands (event_callbacks env))]\<rparr>)"
    using assms by (simp add: handle_message_def try_body_def add_log_def Let_def)
  have lc: "map fst (list_commands (event_callbacks env)) = map fst (event_callbacks env)"
    by (simp add: list_commands_def case_prod_beta o_def)
  show ?thesis
    using hm lc by simp
qed

text \<open>
  Claim C5.  When a registered command was dispatched and its response serialised, the
  response is sent to each member of the connected-client set as it is at the broadcast, once
  each and to no one else, whoever sent the request; every member whose send succeeds has
  received it; and the sender of the request, a member of the set while its handler runs, is
  among the recipients.
\<close>

theorem response_broadcast_to_all_clients:
  assumes "json_loads env message = Inr payload"
    and "is_dict payload"
    and "list_all (has_key payload) envelope_keys"
    and "getitem payload ''cmd'' = JStr name"
    and "name \<in> set (map fst (event_callbacks env))"
    and "make_callback env (JStr name) (getitem payload ''result_id'')
           (getitem payload ''error_id'') (getitem payload ''payload'') = Inr response"
    and "dump_response env response = Inr response_msg"
    and "st' = snd (handle_message env websocket message st)"
  shows "send_calls st' =
           send_calls st @ map (\<lambda>c. (c, response_msg)) (connected_clients st) \<and>
         (\<forall>c \<in> set (connected_clients st). (c, response_msg) \<in> set (send_calls st')) \<and>
         (\<forall>c \<in> set (connected_clients st).
            client_send env c response_msg = None \<longrightarrow> (c, response_msg) \<in> set (delivered st')) \<and>
         (websocket, response_msg) \<in>
           set (send_calls (snd (handle_message env websocket message
                  (st\<lparr>connected_clients := set_add websocket (connected_clients st)\<rparr>))))"
proof -
  let ?st1 = "\<lambda>s :: relay_state. s\<lparr>calls := calls s @
                 [(JStr name, getitem payload ''result_id'', getitem payload ''error_id'',
                   getitem payload ''payload'')]\<rparr>"
  have tb: "\<And>s. try_body env message s = broadcast env response_msg (?st1 s)"
    using assms(1-7) by (simp add: try_body_dispatch Let_def)
  have sc: "\<And>s. send_calls (snd (handle_message env websocket message s)) =
              send_calls s @ map (\<lambda>c. (c, response_msg)) (connected_clients s)"
    by (simp add: handle_message_send_calls tb broadcast_state)
  have dl: "delivered st' = delivered st @
          map (\<lambda>c. (c, response_msg))
            (filter (\<lambda>c. client_send env c response_msg = None) (connected_clients st))"
    unfolding assms(8)
    by (simp add: handle_message_delivered tb broadcast_state)
  have a: "send_calls st' =
           send_calls st @ map (\<lambda>c. (c, response_msg)) (connected_clients st)"
    unfolding assms(8) by (rule sc)
  have b: "\<forall>c \<in> set (connected_clients st). (c, response_msg) \<in> set (send_calls st')"
    by (simp add: a)
  have c: "\<forall>c \<in> set (connected_clients st).
            client_send env c response_msg = None \<longrightarrow> (c, response_msg) \<in> set (delivered st')"
    by (simp add: dl)
  have d: "(websocket, response_msg) \<in>
           set (send_calls (snd (handle_message env websocket message
                  (st\<lparr>connected_clients := set_add websocket (connected_clients st)\<rparr>))))"
    by (simp add: sc set_add_def)
  show ?thesis using a b c d by blast
qed

lemma agree_has_key:
  assumes "\<forall>k \<in> set envelope_keys. map_of (dict_items p') k = map_of (dict_items p) k"
  shows "list_all (has_key p') envelope_keys = list_all (has_key p) envelope_keys"
  using assms by (simp add: has_key_def envelope_keys_def)

lemma agree_getitem:
  assumes "\<forall>k \<in> set envelope_keys. map_of (dict_items p') k = map_of (dict_items p) k"
    and "k \<in> set envelope_keys"
  shows "getitem p' k = getitem p k"
  using assms by (simp add: getitem_def)

lemma try_body_incomplete:
  assumes "json_loads env message = Inr payload"
    and "\<not> list_all (has_key payload) envelope_keys"
  shows "try_body env message st =
           (None, add_log (if is_dict payload then Incomplete_message_keys payload
                           else Ignoring_non_dict_payload payload) st)"
  using assms by (simp add: try_body_def)

text \<open>
  Claim C4, as the code has it.  A message that parses to an object is dispatched only if
  the object carries all four keys \<^verbatim>\<open>cmd\<close>, \<^verbatim>\<open>result_id\<close>, \<^verbatim>\<open>error_id\<close> and \<^verbatim>\<open>payload\<close>; an
  object that lacks one of them is rejected before dispatch with a warning and no other
  effect.  Keys beyond the four are not looked at: two objects that agree on the four keys
  are handled in the same way.
\<close>

theorem dispatch_requires_the_four_keys:
  assumes "json_loads env message = Inr payload"
    and "is_dict payload"
  shows "(calls (snd (handle_message env websocket message st)) \<noteq> calls st
            \<longrightarrow> list_all (has_key payload) envelope_keys) \<and>
         (send_calls (snd (handle_message env websocket message st)) \<noteq> send_calls st
            \<longrightarrow> list_all (has_key payload) envelope_keys) \<and>
         (\<not> list_all (has_key payload) envelope_keys \<longrightarrow>
            handle_message env websocket message st =
              (None, st\<lparr>log := log st @ [Incomplete_message_keys payload]\<rparr>)) \<and>
         (list_all (has_key payload) envelope_keys \<and>
          json_loads env message' = Inr payload' \<and> is_dict payload' \<and>
          (\<forall>k \<in> set envelope_keys.
             map_of (dict_items payload') k = map_of (dict_items payload) k) \<longrightarrow>
            handle_message env websocket message' st = handle_message env websocket message st)"
proof (intro conjI impI)
  have rej: "\<not> list_all (has_key payload) envelope_keys \<Longrightarrow>
      handle_message env websocket message st =
        (None, st\<lparr>log := log st @ [Incomplete_message_keys payload]\<rparr>)"
    using assms by (simp add: handle_message_def try_body_incomplete add_log_def)
  show "list_all (has_key payload) envelope_keys"
    if "calls (snd (handle_message env websocket message st)) \<noteq> calls st"
    using that rej by (cases "list_all (has_key payload) envelope_keys") auto
  show "list_all (has_key payload) envelope_keys"
    if "send_calls (snd (handle_message env websocket message st)) \<noteq> send_calls st"
    using that rej by (cases "list_all (has_key payload) envelope_keys") auto
  show "handle_message env websocket message st =
          (None, st\<lparr>log := log st @ [Incomplete_message_keys payload]\<rparr>)"
    if "\<not> list_all (has_key payload) envelope_keys"
    using that by (rule rej)
  show "handle_message env websocket message' st = handle_message env websocket message st"
    if h: "list_all (has_key payload) envelope_keys \<and>
          json_loads env message' = Inr payload' \<and> is_dict payload' \<and>
          (\<forall>k \<in> set envelope_keys.
             map_of (dict_items payload') k = map_of (dict_items payload) k)"
  proof -
    from h have ag: "\<forall>k \<in> set envelope_keys.
             map_of (dict_items payload') k = map_of (dict_items payload) k"
      by blast
    have k': "list_all (has_key payload') envelope_keys"
      using h agree_has_key [OF ag] by simp
    have g: "getitem payload' ''cmd'' = getitem payload ''cmd''"
      "getitem payload' ''result_id'' = getitem payload ''result_id''"
      "getitem payload' ''error_id'' = getitem payload ''error_id''"
      "getitem payload' ''payload'' = getitem payload ''payload''"
      using agree_getitem [OF ag] by (simp_all add: envelope_keys_def)
    have "try_body env message' st = try_body env message st"
      using h k' assms by (simp add: try_body_def Let_def g)
    then show ?thesis
      by (simp add: handle_message_def)
  qed
qed

lemma broadcast_exception_origin:
  assumes "fst (broadcast env msg st) = Some exc"
  shows "\<exists>c \<in> set (connected_clients st). client_send env c msg = Some exc"
proof -
  obtain rest where "List.map_filter (\<lambda>c. client_send env c msg) (connected_clients st) = exc # rest"
    using assms by (auto simp: broadcast_def Let_def split: list.splits)
  then have "exc \<in> set (List.map_filter (\<lambda>c. client_send env c msg) (connected_clients st))"
    by simp
  then show ?thesis
    by (auto simp: List.map_filter_def)
qed

lemma handler_end_discards:
  "websocket \<notin> set (connected_clients (snd (handle_frontend_connections env websocket messages e st)))"
  by (simp add: handle_frontend_connections_def Let_def set_discard_def split: prod.splits)

text \<open>
  Claim C1, as the code has it.  When the send to one connected client fails during the
  broadcast of a response, the send to every member of the set is still made and every
  member whose own send succeeds receives the response.  The broadcast leaves the
  connected-client set as it is; when the failures are exceptions (not cancellations) the
  handler logs one error and goes on.  The client whose send failed leaves the set when its
  own connection handler ends.
\<close>

theorem send_failure_leaves_other_clients_served:
  assumes "json_loads env message = Inr payload"
    and "is_dict payload"
    and "list_all (has_key payload) envelope_keys"
    and "getitem payload ''cmd'' = JStr name"
    and "name \<in> set (map fst (event_callbacks env))"
    and "make_callback env (JStr name) (getitem payload ''result_id'')
           (getitem payload ''error_id'') (getitem payload ''payload'') = Inr response"
    and "dump_response env response = Inr response_msg"
    and "failed \<in> set (connected_clients st)"
    and "client_send env failed response_msg \<noteq> None"
    and "st' = snd (handle_message env websocket message st)"
  shows "(\<forall>c \<in> set (connected_clients st).
            client_send env c response_msg = None \<longrightarrow> (c, response_msg) \<in> set (delivered st')) \<and>
         (\<forall>c \<in> set (connected_clients st). (c, response_msg) \<in> set (send_calls st')) \<and>
         connected_clients st' = connected_clients st \<and>
         ((\<forall>c \<in> set (connected_clients st). \<forall>exc.
              client_send env c response_msg = Some exc \<longrightarrow> is_Exception exc) \<longrightarrow>
            fst (handle_message env websocket message st) = None \<and>
            (\<exists>entry. level entry = Error \<and> log st' = log st @ [entry])) \<and>
         failed \<notin> set (connected_clients
                        (snd (handle_frontend_connections env failed messages e st')))"
proof -
  let ?st1 = "st\<lparr>calls := calls st @
                 [(JStr name, getitem payload ''result_id'', getitem payload ''error_id'',
                   getitem payload ''payload'')]\<rparr>"
  have tb: "try_body env message st = broadcast env response_msg ?st1"
    using assms(1-7) by (simp add: try_body_dispatch Let_def)
  have a: "\<forall>c \<in> set (connected_clients st).
            client_send env c response_msg = None \<longrightarrow> (c, response_msg) \<in> set (delivered st')"
    unfolding assms(10) by (simp add: handle_message_delivered tb broadcast_state)
  have b: "\<forall>c \<in> set (connected_clients st). (c, response_msg) \<in> set (send_calls st')"
    unfolding assms(10) by (simp add: handle_message_send_calls tb broadcast_state)
  have c: "connected_clients st' = connected_clients st"
    unfolding assms(10) by (rule handle_message_clients)
  have d: "fst (handle_message env websocket message st) = None \<and>
            (\<exists>entry. level entry = Error \<and> log st' = log st @ [entry])"
    if allexc: "\<forall>c \<in> set (connected_clients st). \<forall>exc.
              client_send env c response_msg = Some exc \<longrightarrow> is_Exception exc"
  proof -
    have "fst (broadcast env response_msg ?st1) \<noteq> None"
      using assms(8,9) by (simp add: broadcast_raises) blast
    then obtain exc where ex: "fst (broadcast env response_msg ?st1) = Some exc"
      by blast
    then have "\<exists>c \<in> set (connected_clients st). client_send env c response_msg = Some exc"
      using broadcast_exception_origin [of env response_msg ?st1 exc] by simp
    then have ie: "is_Exception exc"
      using allexc by blast
    obtain s where bs: "broadcast env response_msg ?st1 = (Some exc, s)"
      using ex by (cases "broadcast env response_msg ?st1") simp
    have ls: "log s = log st"
      using broadcast_state [of env response_msg ?st1] bs by simp
    show ?thesis
    proof (cases "exc = JSONDecodeError")
      case True
      then have "handle_message env websocket message st =
                   (None, add_log (Malformed_JSON websocket exc) s)"
        by (simp add: handle_message_def tb bs)
      then show ?thesis
        unfolding assms(10) using ls
        by (intro conjI exI [of _ "Malformed_JSON websocket exc"]) (simp_all add: add_log_def)
    next
      case False
      then have "handle_message env websocket message st =
                   (None, add_log (Unexpected_error exc) s)"
        using ie by (simp add: handle_message_def tb bs)
      then show ?thesis
        unfolding assms(10) using ls
        by (intro conjI exI [of _ "Unexpected_error exc"]) (simp_all add: add_log_def)
    qed
  qed
  have e: "failed \<notin> set (connected_clients
                        (snd (handle_frontend_connections env failed messages e st')))"
    by (rule handler_end_discards)
  show ?thesis using a b c d e by blast
qed

text \<open>
  In the relay with three clients the send to client 2 fails while the response to
  \<^verbatim>\<open>home_dir\<close> is broadcast: clients 1 and 3 receive it, one error is logged, and client 2 is
  still a member of the set, also once the handler of the requesting connection has ended.
\<close>

theorem failed_client_stays_connected:
  "client_send demo_env 2 ''response'' = Some ConnectionClosed \<and>
   handle_message demo_env 1 ''home_dir'' demo_state =
     (None, demo_state\<lparr>log := [Unexpected_error ConnectionClosed],
              calls := [(JStr ''home_dir'', JStr ''r1'', JStr [], JObj [])],
              send_calls := [(1, ''response''), (2, ''response''), (3, ''response'')],
              delivered := [(1, ''response''), (3, ''response'')]\<rparr>) \<and>
   2 \<in> set (connected_clients (snd (handle_message demo_env 1 ''home_dir'' demo_state))) \<and>
   connected_clients (snd (handle_frontend_connections demo_env 1 [''home_dir''] Closed_ok demo_state))
     = [2, 3]"
  by (simp add: demo_env_def demo_loads_def demo_state_def home_dir_envelope_def
      handle_frontend_connections_def handle_message_def try_body_def broadcast_def
      has_key_def getitem_def envelope_keys_def add_log_def set_add_def set_discard_def
      List.map_filter_def Let_def)

text \<open>
  In the same relay an object with the four keys and a fifth one is dispatched: the handler
  is called and the response is sent to the three clients.
\<close>

theorem extra_key_envelope_is_dispatched:
  "json_loads demo_env ''extra'' = Inr extra_key_envelope \<and>
   is_dict extra_key_envelope \<and>
   map fst (dict_items extra_key_envelope) = envelope_keys @ [''extra''] \<and>
   calls (snd (handle_message demo_env 1 ''extra'' demo_state)) =
     [(JStr ''home_dir'', JStr ''r1'', JStr [], JObj [])] \<and>
   send_calls (snd (handle_message demo_env 1 ''extra'' demo_state)) =
     [(1, ''response''), (2, ''response''), (3, ''response'')]"
  by (simp add: demo_env_def demo_loads_def demo_state_def extra_key_envelope_def
      handle_message_def try_body_def broadcast_def
      has_key_def getitem_def envelope_keys_def add_log_def
      List.map_filter_def Let_def)

subsection \<open>The properties in the relay with three clients\<close>

lemma demo_keys: "list_all (has_key home_dir_envelope) envelope_keys"
  by (simp add: home_dir_envelope_def has_key_def envelope_keys_def)

lemma demo_getitem:
  "getitem home_dir_envelope ''cmd'' = JStr ''home_dir''"
  "getitem home_dir_envelope ''result_id'' = JStr ''r1''"
  "getitem home_dir_envelope ''error_id'' = JStr []"
  "getitem home_dir_envelope ''payload'' = JObj []"
  by (simp_all add: home_dir_envelope_def getitem_def)

theorem rejected_message_is_dropped_witness:
  "json_loads demo_env ''{oops'' = Inl JSONDecodeError \<and>
   (\<exists>entry. (level entry = Warning \<or> level entry = Error) \<and>
      handle_message demo_env 1 ''{oops'' demo_state =
        (None, demo_state\<lparr>log := log demo_state @ [entry]\<rparr>) \<and>
      message_loop demo_env 1 [''{oops'', ''home_dir''] Closed_ok demo_state =
        message_loop demo_env 1 [''home_dir''] Closed_ok
          (demo_state\<lparr>log := log demo_state @ [entry]\<rparr>))"
proof -
  have l: "json_loads demo_env ''{oops'' = Inl JSONDecodeError"
    by (simp add: demo_env_def demo_loads_def)
  show ?thesis
    using l rejected_message_is_dropped [where env = demo_env and message = "''{oops''"
        and websocket = 1 and st = demo_state and rest = "[''home_dir'']" and e = Closed_ok]
    by simp
qed

theorem unregistered_command_fails_softly_witness:
  "json_loads demo_env ''unknown'' = Inr unknown_cmd_envelope \<and>
   ''no_such_command'' \<notin> set (map fst (event_callbacks demo_env)) \<and>
   handle_message demo_env 1 ''unknown'' demo_state =
     (None, demo_state\<lparr>log :=
        [No_handler_registered (JStr ''no_such_command'') [(''home_dir'', [''home_dir''])]]\<rparr>)"
proof -
  have l: "json_loads demo_env ''unknown'' = Inr unknown_cmd_envelope"
    by (simp add: demo_env_def demo_loads_def)
  have d: "is_dict unknown_cmd_envelope"
    by (simp add: unknown_cmd_envelope_def)
  have k: "list_all (has_key unknown_cmd_envelope) envelope_keys"
    by (simp add: unknown_cmd_envelope_def has_key_def envelope_keys_def)
  have c: "getitem unknown_cmd_envelope ''cmd'' = JStr ''no_such_command''"
    by (simp add: unknown_cmd_envelope_def getitem_def)
  have n: "''no_such_command'' \<notin> set (map fst (event_callbacks demo_env))"
    by (simp add: demo_env_def)
  have lc: "list_commands (event_callbacks demo_env) = [(''home_dir'', [''home_dir''])]"
    by (simp add: demo_env_def list_commands_def)
  have lg: "log demo_state = []"
    by (simp add: demo_state_def)
  show ?thesis
    using unregistered_command_fails_softly [OF l d k c n, of 1 demo_state "[]" Closed_ok] l n
    by (simp add: lc lg)
qed

theorem response_broadcast_to_all_clients_witness:
  "json_loads demo_env ''home_dir'' = Inr home_dir_envelope \<and>
   connected_clients demo_state = [1, 2, 3] \<and>
   send_calls (snd (handle_message demo_env 1 ''home_dir'' demo_state)) =
     [(1, ''response''), (2, ''response''), (3, ''response'')] \<and>
   (3, ''response'') \<in> set (delivered (snd (handle_message demo_env 1 ''home_dir'' demo_state)))"
proof -
  have l: "json_loads demo_env ''home_dir'' = Inr home_dir_envelope"
    by (simp add: demo_env_def demo_loads_def)
  have d: "is_dict home_dir_envelope"
    by (simp add: home_dir_envelope_def)
  have n: "''home_dir'' \<in> set (map fst (event_callbacks demo_env))"
    by (simp add: demo_env_def)
  have m: "make_callback demo_env (JStr ''home_dir'') (getitem home_dir_envelope ''result_id'')
           (getitem home_dir_envelope ''error_id'') (getitem home_dir_envelope ''payload'')
           = Inr ''response''"
    by (simp add: demo_env_def)
  have r: "dump_response demo_env ''response'' = Inr ''response''"
    by (simp add: demo_env_def)
  have s3: "client_send demo_env 3 ''response'' = None"
    by (simp add: demo_env_def)
  have cs: "connected_clients demo_state = [1, 2, 3]" "send_calls demo_state = []"
    by (simp_all add: demo_state_def)
  show ?thesis
    using response_broadcast_to_all_clients [OF l d demo_keys demo_getitem(1) n m r refl,
        of 1 demo_state] l s3
    by (simp add: cs)
qed

theorem dispatch_requires_the_four_keys_witness:
  "json_loads demo_env ''incomplete'' = Inr incomplete_envelope \<and>
   \<not> list_all (has_key incomplete_envelope) envelope_keys \<and>
   handle_message demo_env 1 ''incomplete'' demo_state =
     (None, demo_state\<lparr>log := [Incomplete_message_keys incomplete_envelope]\<rparr>) \<and>
   handle_message demo_env 1 ''extra'' demo_state =
     handle_message demo_env 1 ''home_dir'' demo_state"
proof -
  have l: "json_loads demo_env ''incomplete'' = Inr incomplete_envelope"
    by (simp add: demo_env_def demo_loads_def)
  have d: "is_dict incomplete_envelope"
    by (simp add: incomplete_envelope_def)
  have nk: "\<not> list_all (has_key incomplete_envelope) envelope_keys"
    by (simp add: incomplete_envelope_def has_key_def envelope_keys_def)
  have lg: "log demo_state = []"
    by (simp add: demo_state_def)
  have a: "handle_message demo_env 1 ''incomplete'' demo_state =
     (None, demo_state\<lparr>log := [Incomplete_message_keys incomplete_envelope]\<rparr>)"
    using dispatch_requires_the_four_keys [OF l d, of 1 demo_state] nk
    by (simp add: lg)
  have l2: "json_loads demo_env ''home_dir'' = Inr home_dir_envelope"
    by (simp add: demo_env_def demo_loads_def)
  have d2: "is_dict home_dir_envelope"
    by (simp add: home_dir_envelope_def)
  have l3: "json_loads demo_env ''extra'' = Inr extra_key_envelope"
    by (simp add: demo_env_def demo_loads_def)
  have d3: "is_dict extra_key_envelope"
    by (simp add: extra_key_envelope_def)
  have ag: "\<forall>k \<in> set envelope_keys.
      map_of (dict_items extra_key_envelope) k = map_of (dict_items home_dir_envelope) k"
    by (simp add: envelope_keys_def extra_key_envelope_def home_dir_envelope_def)
  have b: "handle_message demo_env 1 ''extra'' demo_state =
     handle_message demo_env 1 ''home_dir'' demo_state"
    using dispatch_requires_the_four_keys [OF l2 d2, of 1 demo_state "''extra''" extra_key_envelope]
      demo_keys l3 d3 ag
    by blast
  show ?thesis using l nk a b by blast
qed

theorem send_failure_leaves_other_clients_served_witness:
  "2 \<in> set (connected_clients demo_state) \<and>
   client_send demo_env 2 ''response'' \<noteq> None \<and>
   (1, ''response'') \<in> set (delivered (snd (handle_message demo_env 1 ''home_dir'' demo_state))) \<and>
   (3, ''response'') \<in> set (delivered (snd (handle_message demo_env 1 ''home_dir'' demo_state))) \<and>
   connected_clients (snd (handle_message demo_env 1 ''home_dir'' demo_state)) = [1, 2, 3] \<and>
   fst (handle_message demo_env 1 ''home_dir'' demo_state) = None \<and>
   2 \<notin> set (connected_clients (snd (handle_frontend_connections demo_env 2 [] Closed_error
              (snd (handle_message demo_env 1 ''home_dir'' demo_state)))))"
proof -
  have l: "json_loads demo_env ''home_dir'' = Inr home_dir_envelope"
    by (simp add: demo_env_def demo_loads_def)
  have d: "is_dict home_dir_envelope"
    by (simp add: home_dir_envelope_def)
  have n: "''home_dir'' \<in> set (map fst (event_callbacks demo_env))"
    by (simp add: demo_env_def)
  have m: "make_callback demo_env (JStr ''home_dir'') (getitem home_dir_envelope ''result_id'')
           (getitem home_dir_envelope ''error_id'') (getitem home_dir_envelope ''payload'')
           = Inr ''response''"
    by (simp add: demo_env_def)
  have r: "dump_response demo_env ''response'' = Inr ''response''"
    by (simp add: demo_env_def)
  have f: "2 \<in> set (connected_clients demo_state)"
    by (simp add: demo_state_def)
  have x: "client_send demo_env 2 ''response'' \<noteq> None"
    by (simp add: demo_env_def)
  have s: "client_send demo_env 1 ''response'' = None" "client_send demo_env 3 ''response'' = None"
    by (simp_all add: demo_env_def)
  have ie: "\<forall>c \<in> set (connected_clients demo_state). \<forall>exc.
              client_send demo_env c ''response'' = Some exc \<longrightarrow> is_Exception exc"
    by (simp add: demo_env_def demo_state_def)
  have cs: "connected_clients demo_state = [1, 2, 3]"
    by (simp add: demo_state_def)
  show ?thesis
    using send_failure_leaves_other_clients_served [OF l d demo_keys demo_getitem(1) n m r f x refl,
        of 1 "[]" Closed_error] f x s ie
    by (simp add: cs)
qed

section \<open>Properties of the shutdown\<close>

subsection \<open>\<^verbatim>\<open>terminate_process_safely\<close>\<close>

lemma join_timeout_alive:
  "is_alive (join_timeout t p) \<longleftrightarrow> \<not> (\<exists>e. exit_time p = Some e \<and> e \<le> clock p + t)"
  by (auto simp: is_alive_def join_timeout_def split: option.splits)

lemma join_timeout_clock_exited:
  assumes "exit_time p = Some e" and "e \<le> clock p + t" and "0 \<le> t"
  shows "clock (join_timeout t p) \<le> clock p + t \<and> clock p \<le> clock (join_timeout t p)"
  using assms by (simp add: join_timeout_def)

lemma join_timeout_clock_alive:
  assumes "is_alive (join_timeout t p)"
  shows "clock (join_timeout t p) = clock p + t"
  using assms by (auto simp: is_alive_def join_timeout_def split: option.splits if_splits)

lemma join_timeout_fields:
  "exit_time (join_timeout t p) = exit_time p"
  "sigterm_delay (join_timeout t p) = sigterm_delay p"
  "sigkill_delay (join_timeout t p) = sigkill_delay p"
  "trace (join_timeout t p) = trace p @ [Join (Some t)]"
  by (simp_all add: join_timeout_def)

lemma terminate_fields:
  "clock (terminate p) = clock p"
  "sigterm_delay (terminate p) = sigterm_delay p"
  "sigkill_delay (terminate p) = sigkill_delay p"
  "trace (terminate p) = trace p @ [Terminate]"
  by (simp_all add: terminate_def)

lemma terminate_exit_within:
  "(\<exists>e. exit_time (terminate p) = Some e \<and> e \<le> b) \<longleftrightarrow>
   (\<exists>e. exit_time p = Some e \<and> e \<le> b) \<or> (\<exists>d. sigterm_delay p = Some d \<and> clock p + d \<le> b)"
  by (cases "exit_time p"; cases "sigterm_delay p") (auto simp: terminate_def min_le_iff_disj)

lemma kill_join_forever:
  "\<exists>p'. join_forever (kill p) = Some p' \<and> \<not> is_alive p' \<and>
        trace p' = trace p @ [Kill, Join None] \<and>
        clock p \<le> clock p' \<and> clock p' \<le> clock p + max 0 (sigkill_delay p)"
  by (cases "exit_time p") (auto simp: join_forever_def kill_def is_alive_def)

text \<open>
  Claim C2.  \<^verbatim>\<open>terminate_process_safely\<close> always returns, with the process gone, and the
  calls it makes on the process are one of three sequences.  A process that exits within 3
  time units is only joined.  Otherwise a terminate request follows the first wait, and a
  process that exits within 2 more time units (by itself or on the request) is only joined
  again.  Otherwise, and only then, 5 time units after the call, it is killed and joined
  until it has exited, which takes as long as the kill takes to end it.  A kill is never
  made without the two waits and the terminate request before it.
\<close>

theorem terminate_process_safely_escalates:
  "\<exists>p'. terminate_process_safely p = Some p' \<and> \<not> is_alive p' \<and>
     (if \<exists>e. exit_time p = Some e \<and> e \<le> clock p + 3
      then trace p' = trace p @ [Join (Some 3)] \<and> clock p' \<le> clock p + 3
      else if (\<exists>e. exit_time p = Some e \<and> e \<le> clock p + 5) \<or>
              (\<exists>d. sigterm_delay p = Some d \<and> d \<le> 2)
      then trace p' = trace p @ [Join (Some 3), Terminate, Join (Some 2)] \<and>
           clock p' \<le> clock p + 5
      else trace p' = trace p @ [Join (Some 3), Terminate, Join (Some 2), Kill, Join None] \<and>
           clock p + 5 \<le> clock p' \<and> clock p' \<le> clock p + 5 + max 0 (sigkill_delay p))"
proof (cases "\<exists>e. exit_time p = Some e \<and> e \<le> clock p + 3")
  case True
  then have dead: "\<not> is_alive (join_timeout 3 p)"
    by (simp add: join_timeout_alive)
  then have r: "terminate_process_safely p = Some (join_timeout 3 p)"
    by (simp add: terminate_process_safely_def Let_def)
  from True obtain e where "exit_time p = Some e" "e \<le> clock p + 3" by blast
  then have "clock (join_timeout 3 p) \<le> clock p + 3"
    using join_timeout_clock_exited [of p e 3] by simp
  then show ?thesis
    using True dead r by (simp add: join_timeout_fields)
next
  case False
  then have alive1: "is_alive (join_timeout 3 p)"
    by (simp add: join_timeout_alive)
  let ?p1 = "join_timeout 3 p"
  let ?pt = "terminate ?p1"
  let ?p2 = "join_timeout 2 ?pt"
  have c1: "clock ?p1 = clock p + 3"
    using alive1 by (rule join_timeout_clock_alive)
  have within: "(\<exists>e. exit_time ?pt = Some e \<and> e \<le> clock ?pt + 2) \<longleftrightarrow>
      (\<exists>e. exit_time p = Some e \<and> e \<le> clock p + 5) \<or> (\<exists>d. sigterm_delay p = Some d \<and> d \<le> 2)"
    by (simp add: terminate_exit_within terminate_fields join_timeout_fields c1 add.commute)
  have tr2: "trace ?p2 = trace p @ [Join (Some 3), Terminate, Join (Some 2)]"
    by (simp add: join_timeout_fields terminate_fields)
  show ?thesis
  proof (cases "(\<exists>e. exit_time p = Some e \<and> e \<le> clock p + 5) \<or>
                (\<exists>d. sigterm_delay p = Some d \<and> d \<le> 2)")
    case True
    then have ex: "\<exists>e. exit_time ?pt = Some e \<and> e \<le> clock ?pt + 2"
      using within by simp
    then have dead2: "\<not> is_alive ?p2"
      by (simp add: join_timeout_alive)
    have r: "terminate_process_safely p = Some ?p2"
      using alive1 dead2 by (simp add: terminate_process_safely_def Let_def)
    from ex obtain e where "exit_time ?pt = Some e" "e \<le> clock ?pt + 2" by blast
    then have "clock ?p2 \<le> clock ?pt + 2"
      using join_timeout_clock_exited [of ?pt e 2] by simp
    then have "clock ?p2 \<le> clock p + 5"
      by (simp add: terminate_fields c1)
    then show ?thesis
      using False True r dead2 tr2 by simp
  next
    case nd: False
    then have alive2: "is_alive ?p2"
      using within by (simp add: join_timeout_alive)
    have c2: "clock ?p2 = clock p + 5"
      using join_timeout_clock_alive [OF alive2] by (simp add: terminate_fields c1)
    have r: "terminate_process_safely p = join_forever (kill ?p2)"
      using alive1 alive2 by (simp add: terminate_process_safely_def Let_def)
    obtain p' where k: "join_forever (kill ?p2) = Some p'" "\<not> is_alive p'"
      "trace p' = trace ?p2 @ [Kill, Join None]"
      "clock ?p2 \<le> clock p'" "clock p' \<le> clock ?p2 + max 0 (sigkill_delay ?p2)"
      using kill_join_forever [of ?p2] by blast
    have sk: "sigkill_delay ?p2 = sigkill_delay p"
      by (simp add: join_timeout_fields terminate_fields)
    show ?thesis
      using False nd r k tr2 c2 sk by simp
  qed
qed

theorem terminate_process_safely_escalates_witness:
  "(\<exists>p'. terminate_process_safely (stubborn\<lparr>exit_time := Some 1\<rparr>) = Some p' \<and>
          trace p' = [Join (Some 3)]) \<and>
   (\<exists>p'. terminate_process_safely (stubborn\<lparr>sigterm_delay := Some 1\<rparr>) = Some p' \<and>
          trace p' = [Join (Some 3), Terminate, Join (Some 2)]) \<and>
   (\<exists>p'. terminate_process_safely stubborn = Some p' \<and>
          trace p' = [Join (Some 3), Terminate, Join (Some 2), Kill, Join None] \<and>
          clock p' \<le> 11 / 2)"
proof -
  have a: "\<exists>p'. terminate_process_safely (stubborn\<lparr>exit_time := Some 1\<rparr>) = Some p' \<and>
          trace p' = [Join (Some 3)]"
    using terminate_process_safely_escalates [of "stubborn\<lparr>exit_time := Some 1\<rparr>"]
    by (auto simp: stubborn_def)
  have b: "\<exists>p'. terminate_process_safely (stubborn\<lparr>sigterm_delay := Some 1\<rparr>) = Some p' \<and>
          trace p' = [Join (Some 3), Terminate, Join (Some 2)]"
    using terminate_process_safely_escalates [of "stubborn\<lparr>sigterm_delay := Some 1\<rparr>"]
    by (auto simp: stubborn_def)
  have c: "\<exists>p'. terminate_process_safely stubborn = Some p' \<and>
          trace p' = [Join (Some 3), Terminate, Join (Some 2), Kill, Join None] \<and>
          clock p' \<le> 11 / 2"
    using terminate_process_safely_escalates [of stubborn]
    by (auto simp: stubborn_def)
  show ?thesis using a b c by blast
qed

subsection \<open>Background tasks\<close>

lemma run_callback_eq:
  "run_callback h st = st\<lparr>background_tasks := set_discard (snd h) (background_tasks st)\<rparr>"
proof (cases h)
  case (Pair cb t)
  then show ?thesis by (cases cb) simp
qed

lemma run_callbacks_eq:
  "fold run_callback hs st =
     st\<lparr>background_tasks := filter (\<lambda>t. t \<notin> snd ` set hs) (background_tasks st)\<rparr>"
proof (induction hs arbitrary: st)
  case Nil
  then show ?case by simp
next
  case (Cons h hs)
  have "filter (\<lambda>t. t \<notin> snd ` set hs) (removeAll (snd h) (background_tasks st)) =
        filter (\<lambda>t. t \<notin> snd ` set (h # hs)) (background_tasks st)"
    by (auto simp: removeAll_filter_not_eq intro: filter_cong)
  then have f: "(run_callback h st)\<lparr>background_tasks :=
         filter (\<lambda>t. t \<notin> snd ` set hs) (background_tasks (run_callback h st))\<rparr> =
       st\<lparr>background_tasks := filter (\<lambda>t. t \<notin> snd ` set (h # hs)) (background_tasks st)\<rparr>"
    by (simp add: run_callback_eq set_discard_def)
  have "fold run_callback (h # hs) st = fold run_callback hs (run_callback h st)"
    by simp
  also have "\<dots> = (run_callback h st)\<lparr>background_tasks :=
         filter (\<lambda>t. t \<notin> snd ` set hs) (background_tasks (run_callback h st))\<rparr>"
    by (rule Cons.IH)
  finally show ?case
    using f by simp
qed

lemma exec_append: "exec (evs @ evs') st = exec evs' (exec evs st)"
  by (simp add: exec_def)

lemma exec_Cons: "exec (ev # evs) st = exec evs (step ev st)"
  by (simp add: exec_def)

lemma exec_Nil: "exec [] st = st"
  by (simp add: exec_def)

lemma run_all_ready:
  "ready st = hs \<Longrightarrow>
   exec (replicate (length hs) Run_ready) st = fold run_callback hs (st\<lparr>ready := []\<rparr>)"
proof (induction hs arbitrary: st)
  case Nil
  then show ?case by (simp add: exec_Nil)
next
  case (Cons h hs)
  let ?s1 = "run_callback h (st\<lparr>ready := hs\<rparr>)"
  have st: "run_ready st = ?s1"
    using Cons.prems by (simp add: run_ready_def)
  have r: "ready ?s1 = hs"
    by (simp add: run_callback_eq)
  have e: "?s1\<lparr>ready := []\<rparr> = run_callback h (st\<lparr>ready := []\<rparr>)"
    by (simp add: run_callback_eq)
  show ?case
    using Cons.IH [OF r] by (simp add: exec_Cons st e)
qed

lemma well_tracked_loop0: "well_tracked (loop0 :: 'c loop_state)"
  by (simp add: well_tracked_def loop0_def)

lemma well_tracked_create:
  assumes "well_tracked st"
  shows "well_tracked (snd (create_task coro st))"
proof -
  have fresh: "\<forall>t \<in> set (background_tasks st). t \<noteq> next_task st"
    using assms by (auto simp: well_tracked_def)
  show ?thesis
    using assms fresh
    by (auto simp: well_tracked_def create_task_def discard_outstanding_def less_Suc_eq)
qed

lemma well_tracked_launch:
  assumes "well_tracked st"
  shows "well_tracked (snd (launch_background_task coro st))"
proof -
  have fresh: "\<forall>t \<in> set (background_tasks st). t \<noteq> next_task st"
    using assms by (auto simp: well_tracked_def)
  show ?thesis
    using assms fresh
    by (auto simp: well_tracked_def launch_background_task_def create_task_def
        add_done_callback_def discard_outstanding_def set_add_def less_Suc_eq)
qed

lemma well_tracked_finish:
  assumes "well_tracked st"
  shows "well_tracked (finish_task t st)"
  using assms
  by (auto simp: well_tracked_def finish_task_def discard_outstanding_def)

lemma well_tracked_run_ready:
  assumes "well_tracked st"
  shows "well_tracked (run_ready st)"
proof (cases "ready st")
  case Nil
  then show ?thesis using assms by (simp add: run_ready_def)
next
  case (Cons h hs)
  obtain cb t0 where h: "h = (cb, t0)" by (cases h)
  have cb: "cb = Discard_background_task" by (cases cb) simp
  have rr: "run_ready st =
      st\<lparr>ready := hs, background_tasks := removeAll t0 (background_tasks st)\<rparr>"
    by (simp add: run_ready_def Cons h cb set_discard_def)
  show ?thesis
    using assms unfolding rr well_tracked_def discard_outstanding_def
    by (auto simp: Cons h cb)
qed

lemma well_tracked_step:
  assumes "well_tracked st"
  shows "well_tracked (step ev st)"
  using assms
  by (cases ev)
    (simp_all add: well_tracked_create well_tracked_launch well_tracked_finish
      well_tracked_run_ready)

lemma well_tracked_exec:
  assumes "well_tracked st"
  shows "well_tracked (exec evs st)"
  using assms
proof (induction evs arbitrary: st)
  case Nil
  then show ?case by (simp add: exec_Nil)
next
  case (Cons ev evs)
  then show ?case by (simp add: exec_Cons well_tracked_step)
qed

lemma well_tracked_reachable: "well_tracked (exec evs (loop0 :: 'c loop_state))"
  by (simp add: well_tracked_exec well_tracked_loop0)

lemma finished_then_scheduled:
  assumes "well_tracked st" and "t \<in> set (background_tasks st)" and "finished st t"
  shows "(Discard_background_task, t) \<in> set (ready st)"
  using assms by (auto simp: well_tracked_def discard_outstanding_def)

lemma finish_task_finished:
  assumes "coro_of st t \<noteq> None"
  shows "finished (finish_task t st) t"
  using assms by (simp add: finish_task_def)

lemma finish_task_fields:
  "background_tasks (finish_task t st) = background_tasks st"
  "coro_of (finish_task t st) = coro_of st"
  "next_task (finish_task t st) = next_task st"
  "cancel_calls (finish_task t st) = cancel_calls st"
  "awaited (finish_task t st) = awaited st"
  "printed (finish_task t st) = printed st"
  by (simp_all add: finish_task_def)

lemma finished_and_run_not_member:
  assumes "well_tracked st"
  shows "t \<notin> set (background_tasks
            (exec (Finish t # replicate (length (ready (finish_task t st))) Run_ready) st))"
proof -
  let ?s = "finish_task t st"
  have wt: "well_tracked ?s"
    using assms by (rule well_tracked_finish)
  have ex: "exec (Finish t # replicate (length (ready ?s)) Run_ready) st =
            fold run_callback (ready ?s) (?s\<lparr>ready := []\<rparr>)"
    using run_all_ready [of ?s "ready ?s"] by (simp add: exec_Cons)
  have "t \<in> set (background_tasks ?s) \<Longrightarrow> t \<in> snd ` set (ready ?s)"
  proof -
    assume m: "t \<in> set (background_tasks ?s)"
    then have "coro_of ?s t \<noteq> None"
      using wt by (auto simp: well_tracked_def)
    then have "coro_of st t \<noteq> None"
      by (simp add: finish_task_fields)
    then have "finished ?s t"
      by (rule finish_task_finished)
    then have "(Discard_background_task, t) \<in> set (ready ?s)"
      using wt m by (simp add: finished_then_scheduled)
    then show ?thesis by force
  qed
  then show ?thesis
    unfolding ex by (auto simp: run_callbacks_eq)
qed

text \<open>
  Claim C8.  At every moment of the loop, \<^verbatim>\<open>launch_background_task\<close> creates a task that
  did not exist before, adds it to the background task set with the discard callback
  registered on it, and returns it.  A task whose discard callback is no longer outstanding
  (it has run) is not a member of the set, at every moment.  And the callback does run on
  completion: once a task has finished and the loop has run the callbacks scheduled by then,
  the task is not a member of the set.
\<close>

theorem launched_task_is_tracked_until_done:
  "(case launch_background_task coro (exec evs loop0) of
      (task, st') \<Rightarrow>
        coro_of (exec evs loop0) task = None \<and> coro_of st' task = Some coro \<and>
        \<not> finished st' task \<and> task \<in> set (background_tasks st') \<and>
        discard_outstanding st' task \<and> st' = exec (evs @ [Launch coro]) loop0) \<and>
   (\<not> discard_outstanding (exec evs loop0) t \<longrightarrow>
      t \<notin> set (background_tasks (exec evs loop0))) \<and>
   t \<notin> set (background_tasks
         (exec (evs @ Finish t #
                  replicate (length (ready (finish_task t (exec evs loop0)))) Run_ready) loop0))"
proof -
  let ?st = "exec evs loop0"
  have wt: "well_tracked ?st"
    by (rule well_tracked_reachable)
  have fresh: "coro_of ?st (next_task ?st) = None"
    using wt by (auto simp: well_tracked_def)
  have a: "case launch_background_task coro ?st of
      (task, st') \<Rightarrow>
        coro_of ?st task = None \<and> coro_of st' task = Some coro \<and>
        \<not> finished st' task \<and> task \<in> set (background_tasks st') \<and>
        discard_outstanding st' task \<and> st' = exec (evs @ [Launch coro]) loop0"
    using fresh
    by (simp add: launch_background_task_def create_task_def add_done_callback_def
        discard_outstanding_def set_add_def exec_append exec_Cons exec_Nil)
  have b: "\<not> discard_outstanding ?st t \<longrightarrow> t \<notin> set (background_tasks ?st)"
    using wt by (auto simp: well_tracked_def)
  have c: "t \<notin> set (background_tasks
         (exec (evs @ Finish t # replicate (length (ready (finish_task t ?st))) Run_ready) loop0))"
    using finished_and_run_not_member [OF wt, of t] by (simp add: exec_append)
  show ?thesis using a b c by blast
qed

theorem launched_task_is_tracked_until_done_witness:
  "background_tasks (exec [Create ''main'', Launch ''server''] (loop0 :: string loop_state)) = [1] \<and>
   \<not> discard_outstanding
       (exec [Create ''main'', Launch ''server'', Finish 1, Run_ready] (loop0 :: string loop_state)) 1 \<and>
   1 \<notin> set (background_tasks
       (exec [Create ''main'', Launch ''server'', Finish 1, Run_ready] (loop0 :: string loop_state)))"
proof -
  have a: "background_tasks (exec [Create ''main'', Launch ''server''] (loop0 :: string loop_state)) = [1]"
    by (simp add: exec_def loop0_def create_task_def launch_background_task_def
        add_done_callback_def set_add_def)
  have b: "\<not> discard_outstanding
       (exec [Create ''main'', Launch ''server'', Finish 1, Run_ready] (loop0 :: string loop_state)) 1"
    by (simp add: exec_def loop0_def create_task_def launch_background_task_def
        add_done_callback_def set_add_def finish_task_def run_ready_def set_discard_def
        discard_outstanding_def)
  show ?thesis
    using a b
      launched_task_is_tracked_until_done
        [where evs = "[Create ''main'', Launch ''server'', Finish 1, Run_ready]" and t = 1
           and coro = "''sender''"]
    by blast
qed

subsection \<open>\<^verbatim>\<open>cancel_all_tasks\<close>\<close>























section \<open>The command line\<close>

text \<open>
  Claim C9.  \<^verbatim>\<open>pyorion/utils.py\<close> binds no name \<^verbatim>\<open>remove_pycash\<close>, so the import at the head
  of \<^verbatim>\<open>__main__.py\<close> raises \<^verbatim>\<open>ImportError\<close> before the command group is reached: every run
  of the command line, the one subcommand included, ends with exit status 1, whatever the
  removal itself would have done.
\<close>

theorem cli_import_fails:
  "''remove_pycash'' \<notin> set utils_names \<and>
   run_main removal argv = Uncaught ImportError \<and>
   exit_status (run_main removal argv) = 1"
  by (simp add: run_main_def import_from_def utils_names_def)

end
